theory Spec2Isabelle
  imports Main "HOL-Library.Word"
begin

unbundle bit_operations_syntax

section \<open>The Python library functions the identifier generator calls\<close>

text \<open>
  \<open>pubmate/mint.py\<close> calls \<open>hashlib.sha256\<close>, \<open>json.dumps\<close>, \<open>uuid.uuid4\<close> and
  \<open>re.match\<close>. They are written out here as functions, so that every identifier the generator
  builds is a value that can be computed. A Python \<open>str\<close> is a \<open>string\<close> whose characters
  are code points below 256.
\<close>

subsection \<open>Lower-case hexadecimal\<close>

definition hex_digit :: "nat \<Rightarrow> char" where
  "hex_digit n = ''0123456789abcdef'' ! (n mod 16)"

definition is_hex :: "char \<Rightarrow> bool" where
  "is_hex c = (c \<in> set ''0123456789abcdef'')"

text \<open>The four bits of \<open>w\<close> from bit \<open>s\<close> on, as one digit.\<close>

definition nibble :: "'a::len word \<Rightarrow> nat \<Rightarrow> char" where
  "nibble w s = hex_digit (unat (drop_bit s w AND 15))"

text \<open>\<open>'%08x' % w\<close> for a 32-bit number.\<close>

definition hex32 :: "32 word \<Rightarrow> string" where
  "hex32 w = map (nibble w) [28, 24, 20, 16, 12, 8, 4, 0]"

subsection \<open>hashlib.sha256 (FIPS 180-4)\<close>

type_synonym w32 = "32 word"

definition rotr :: "nat \<Rightarrow> w32 \<Rightarrow> w32" where
  "rotr n x = word_rotr n x"

definition Ch :: "w32 \<Rightarrow> w32 \<Rightarrow> w32 \<Rightarrow> w32" where
  "Ch x y z = (x AND y) XOR (NOT x AND z)"

definition Maj :: "w32 \<Rightarrow> w32 \<Rightarrow> w32 \<Rightarrow> w32" where
  "Maj x y z = (x AND y) XOR (x AND z) XOR (y AND z)"

definition Sigma0 :: "w32 \<Rightarrow> w32" where
  "Sigma0 x = rotr 2 x XOR rotr 13 x XOR rotr 22 x"

definition Sigma1 :: "w32 \<Rightarrow> w32" where
  "Sigma1 x = rotr 6 x XOR rotr 11 x XOR rotr 25 x"

definition sigma0 :: "w32 \<Rightarrow> w32" where
  "sigma0 x = rotr 7 x XOR rotr 18 x XOR drop_bit 3 x"

definition sigma1 :: "w32 \<Rightarrow> w32" where
  "sigma1 x = rotr 17 x XOR rotr 19 x XOR drop_bit 10 x"

text \<open>
  The round constants and the initial hash value (the fractional parts of the cube roots and
  square roots of the first primes), in decimal.
\<close>

definition sha256_K :: "w32 list" where
  "sha256_K =
    [1116352408, 1899447441, 3049323471, 3921009573, 961987163, 1508970993,
     2453635748, 2870763221, 3624381080, 310598401, 607225278, 1426881987,
     1925078388, 2162078206, 2614888103, 3248222580, 3835390401, 4022224774,
     264347078, 604807628, 770255983, 1249150122, 1555081692, 1996064986,
     2554220882, 2821834349, 2952996808, 3210313671, 3336571891, 3584528711,
     113926993, 338241895, 666307205, 773529912, 1294757372, 1396182291,
     1695183700, 1986661051, 2177026350, 2456956037, 2730485921, 2820302411,
     3259730800, 3345764771, 3516065817, 3600352804, 4094571909, 275423344,
     430227734, 506948616, 659060556, 883997877, 958139571, 1322822218,
     1537002063, 1747873779, 1955562222, 2024104815, 2227730452, 2361852424,
     2428436474, 2756734187, 3204031479, 3329325298]"

definition sha256_H0 :: "w32 list" where
  "sha256_H0 =
    [1779033703, 3144134277, 1013904242, 2773480762, 1359893119, 2600822924,
     528734635, 1541459225]"

text \<open>The message with the bit \<open>1\<close>, zero bytes up to 56 modulo 64, and its bit length in 8 bytes.\<close>

definition sha256_pad :: "8 word list \<Rightarrow> 8 word list" where
  "sha256_pad bs =
     (let n = (of_nat (length bs) :: 64 word) * 8
      in bs @ [128] @ replicate ((119 - length bs mod 64) mod 64) 0 @
         map (\<lambda>s. ucast (drop_bit s n)) [56, 48, 40, 32, 24, 16, 8, 0])"

text \<open>Four bytes, big-endian, as one word.\<close>

definition be_word :: "8 word list \<Rightarrow> w32" where
  "be_word bs = foldl (\<lambda>a b. push_bit 8 a OR ucast b) 0 bs"

fun be_words :: "nat \<Rightarrow> 8 word list \<Rightarrow> w32 list" where
  "be_words 0 bs = []"
| "be_words (Suc n) bs = be_word (take 4 bs) # be_words n (drop 4 bs)"

text \<open>The message schedule: \<open>n\<close> more words after the ones given (16 at the start).\<close>

fun schedule :: "nat \<Rightarrow> w32 list \<Rightarrow> w32 list" where
  "schedule 0 w = w"
| "schedule (Suc n) w =
     schedule n
       (w @ [sigma1 (w ! (length w - 2)) + w ! (length w - 7) +
             sigma0 (w ! (length w - 15)) + w ! (length w - 16)])"

text \<open>One round on the working variables \<open>a\<close> to \<open>h\<close>.\<close>

fun sha256_round :: "w32 list \<Rightarrow> w32 \<times> w32 \<Rightarrow> w32 list" where
  "sha256_round [a, b, c, d, e, f, g, h] (k, w) =
     (let t1 = h + Sigma1 e + Ch e f g + k + w;
          t2 = Sigma0 a + Maj a b c
      in [t1 + t2, a, b, c, d + t1, e, f, g])"
| "sha256_round v _ = v"

definition sha256_block :: "w32 list \<Rightarrow> 8 word list \<Rightarrow> w32 list" where
  "sha256_block hs block =
     map2 (+) hs (foldl sha256_round hs (zip sha256_K (schedule 48 (be_words 16 block))))"

fun sha256_blocks :: "nat \<Rightarrow> w32 list \<Rightarrow> 8 word list \<Rightarrow> w32 list" where
  "sha256_blocks 0 hs bs = hs"
| "sha256_blocks (Suc n) hs bs = sha256_blocks n (sha256_block hs (take 64 bs)) (drop 64 bs)"

text \<open>\<open>hashlib.sha256(bs).hexdigest()\<close>.\<close>

definition sha256_hexdigest :: "8 word list \<Rightarrow> string" where
  "sha256_hexdigest bs =
     (let p = sha256_pad bs
      in concat (map hex32 (sha256_blocks (length p div 64) sha256_H0 p)))"

subsection \<open>json.dumps with sorted keys and compact separators\<close>

text \<open>
  A record read from YAML: null, booleans, integers, strings, lists and mappings with string
  keys (floats and timestamps are left out). A mapping is an association list with distinct keys.
\<close>

datatype json = JNull | JBool bool | JInt int | JStr string | JList "json list"
  | JDict "(string \<times> json) list"

type_synonym entity = "(string \<times> json) list"

function str_nat :: "nat \<Rightarrow> string" where
  "str_nat n = (if n < 10 then [hex_digit n] else str_nat (n div 10) @ [hex_digit (n mod 10)])"
  by pat_completeness auto
termination
  by (relation "measure id") auto

text \<open>\<open>str(i)\<close> for an integer.\<close>

definition str_int :: "int \<Rightarrow> string" where
  "str_int i = (if i < 0 then CHR ''-'' # str_nat (nat (- i)) else str_nat (nat i))"

text \<open>
  \<open>ensure_ascii\<close> is on: the quote and the backslash are escaped, the five named control
  characters have their short forms, and every other character outside \<open>' '\<close> to \<open>'~'\<close> is
  written \<open>\u00xx\<close>.
\<close>

definition json_escape :: "char \<Rightarrow> string" where
  "json_escape c =
     (let n = (of_char c :: nat) in
      if n = 34 then [CHR 0x5C, CHR 0x22]
      else if n = 92 then [CHR 0x5C, CHR 0x5C]
      else if n = 10 then [CHR 0x5C, CHR ''n'']
      else if n = 13 then [CHR 0x5C, CHR ''r'']
      else if n = 9 then [CHR 0x5C, CHR ''t'']
      else if n = 8 then [CHR 0x5C, CHR ''b'']
      else if n = 12 then [CHR 0x5C, CHR ''f'']
      else if 32 \<le> n \<and> n \<le> 126 then [c]
      else [CHR 0x5C, CHR ''u'', CHR ''0'', CHR ''0'', hex_digit (n div 16), hex_digit n])"

definition json_string :: "string \<Rightarrow> string" where
  "json_string s = [CHR 0x22] @ concat (map json_escape s) @ [CHR 0x22]"

text \<open>Python compares strings code point by code point.\<close>

fun str_less :: "string \<Rightarrow> string \<Rightarrow> bool" where
  "str_less [] [] = False"
| "str_less [] (y # ys) = True"
| "str_less (x # xs) [] = False"
| "str_less (x # xs) (y # ys) =
     ((of_char x :: nat) < of_char y \<or> (x = y \<and> str_less xs ys))"

fun insert_item :: "string \<times> 'a \<Rightarrow> (string \<times> 'a) list \<Rightarrow> (string \<times> 'a) list" where
  "insert_item kv [] = [kv]"
| "insert_item kv (x # xs) =
     (if str_less (fst kv) (fst x) then kv # x # xs else x # insert_item kv xs)"

definition sort_items :: "(string \<times> 'a) list \<Rightarrow> (string \<times> 'a) list" where
  "sort_items kvs = foldr insert_item kvs []"

fun join :: "string \<Rightarrow> string list \<Rightarrow> string" where
  "join sep [] = []"
| "join sep [x] = x"
| "join sep (x # y # ys) = x @ sep @ join sep (y # ys)"

text \<open>\<open>json.dumps(data, sort_keys=True, separators=(",", ":"))\<close>.\<close>

fun json_dumps :: "json \<Rightarrow> string" where
  "json_dumps JNull = ''null''"
| "json_dumps (JBool b) = (if b then ''true'' else ''false'')"
| "json_dumps (JInt i) = str_int i"
| "json_dumps (JStr s) = json_string s"
| "json_dumps (JList xs) = ''['' @ join '','' (map json_dumps xs) @ '']''"
| "json_dumps (JDict kvs) =
     ''{'' @ join '',''
       (map (\<lambda>(k, v). json_string k @ '':'' @ v)
          (sort_items (map (\<lambda>(k, v). (k, json_dumps v)) kvs))) @ ''}''"

subsection \<open>uuid.uuid4 and re.match\<close>

text \<open>
  \<open>uuid4()\<close> is \<open>UUID(bytes=os.urandom(16), version=4)\<close>: the sixteen random bytes as one number,
  with the variant and version bits set; \<open>str\<close> prints it as 32 digits in five groups.
\<close>

definition uuid4_int :: "128 word \<Rightarrow> 128 word" where
  "uuid4_int r =
     (((r AND NOT (push_bit 48 0xc000)) OR push_bit 48 0x8000) AND NOT (push_bit 64 0xf000))
       OR push_bit 76 4"

definition uuid_str :: "128 word \<Rightarrow> string" where
  "uuid_str w =
     (let hex = map (nibble w) (rev (map (\<lambda>i. 4 * i) [0..<32]))
      in take 8 hex @ ''-'' @ take 4 (drop 8 hex) @ ''-'' @ take 4 (drop 12 hex) @ ''-'' @
         take 4 (drop 16 hex) @ ''-'' @ drop 20 hex)"

text \<open>
  \<open>re.match(r"^[0-9a-f]{n}$", s)\<close>: \<open>n\<close> digits and then the end of the string, where \<open>$\<close>
  also matches just before one final newline.
\<close>

definition re_match_hex :: "nat \<Rightarrow> string \<Rightarrow> bool" where
  "re_match_hex n s =
     (length (takeWhile is_hex s) \<ge> n \<and> (drop n s = [] \<or> drop n s = [CHR 0x0A]))"

definition startswith :: "string \<Rightarrow> string \<Rightarrow> bool" where
  "startswith s p = (take (length p) s = p)"

section \<open>pubmate/mint.py: the identifier generator\<close>

datatype error =
    NotImplementedError
  | ValueError string
  | TypeError string
  | AttributeError string
  | RuntimeError string
  | ParseException

record generator =
  namespace :: string
  type_prefix :: "string option"
  registered_ids :: "string set"

definition IdentifierGenerator :: "string \<Rightarrow> string option \<Rightarrow> generator" where
  "IdentifierGenerator ns tp = \<lparr>namespace = ns, type_prefix = tp, registered_ids = {}\<rparr>"

definition is_id_available :: "generator \<Rightarrow> string \<Rightarrow> bool" where
  "is_id_available G identifier = (if identifier \<in> registered_ids G then False else True)"

definition is_namespace_id :: "generator \<Rightarrow> string \<Rightarrow> bool" where
  "is_namespace_id G key = (if startswith key (namespace G) then True else False)"

definition is_valid_id :: "generator \<Rightarrow> string \<Rightarrow> string \<Rightarrow> error + bool" where
  "is_valid_id G key method =
     (if \<not> startswith key (namespace G) then Inr False
      else
        let remaining = drop (length (namespace G)) key in
        case (if method = ''uuid'' then Inr 8
              else if method = ''hash'' then Inr 10
              else Inl NotImplementedError) of
          Inl e \<Rightarrow> Inl e
        | Inr n \<Rightarrow>
            (case type_prefix G of
               Some tp \<Rightarrow>
                 (let expected_prefix = tp @ ''-'' in
                  if \<not> startswith remaining expected_prefix then Inr False
                  else Inr (re_match_hex n (drop (length expected_prefix) remaining)))
             | None \<Rightarrow> Inr (re_match_hex n remaining)))"

definition register_id :: "generator \<Rightarrow> string \<Rightarrow> generator" where
  "register_id G identifier = G\<lparr>registered_ids := insert identifier (registered_ids G)\<rparr>"

text \<open>The canonical text is ASCII, so its UTF-8 bytes are its characters.\<close>

definition hash_dict :: "entity \<Rightarrow> string" where
  "hash_dict data = sha256_hexdigest (map of_char (json_dumps (JDict data)))"

text \<open>
  \<open>entity["_collision":attempts]\<close> subscripts the dict with a slice object. A slice is not
  hashable, so the lookup raises \<open>TypeError\<close> whatever the dict holds (from Python 3.12 on a
  slice is hashable and the lookup raises \<open>KeyError\<close> instead, no key of a record being a
  slice).
\<close>

definition dict_getitem_slice :: "entity \<Rightarrow> string \<Rightarrow> int \<Rightarrow> error + entity" where
  "dict_getitem_slice d lo hi = Inl (TypeError (''unhashable type: '' @ [CHR 0x27] @ ''slice'' @ [CHR 0x27]))"

text \<open>
  \<open>getattr(entity, name)\<close> on a dict looks \<open>name\<close> up among the attributes of the dict object,
  not among its keys. The f-string prints an attribute that exists by its \<open>repr\<close>, which for a
  method holds the address of the object; it is written \<open><dict.NAME>\<close> here.
\<close>

definition dict_attribute_names :: "string list" where
  "dict_attribute_names =
     [''__class__'', ''__class_getitem__'', ''__contains__'', ''__delattr__'', ''__delitem__'',
      ''__dir__'', ''__doc__'', ''__eq__'', ''__format__'', ''__ge__'', ''__getattribute__'',
      ''__getitem__'', ''__getstate__'', ''__gt__'', ''__hash__'', ''__init__'',
      ''__init_subclass__'', ''__ior__'', ''__iter__'', ''__le__'', ''__len__'', ''__lt__'',
      ''__ne__'', ''__new__'', ''__or__'', ''__reduce__'', ''__reduce_ex__'', ''__repr__'',
      ''__reversed__'', ''__ror__'', ''__setattr__'', ''__setitem__'', ''__sizeof__'', ''__str__'',
      ''__subclasshook__'', ''clear'', ''copy'', ''fromkeys'', ''get'', ''items'', ''keys'', ''pop'',
      ''popitem'', ''setdefault'', ''update'', ''values'']"

definition getattr_dict :: "entity \<Rightarrow> string \<Rightarrow> error + string" where
  "getattr_dict d name =
     (if name \<in> set dict_attribute_names then Inr (''<dict.'' @ name @ ''>'')
      else Inl (AttributeError ([CHR 0x27] @ ''dict'' @ [CHR 0x27] @ '' object has no attribute '' @
                                [CHR 0x27] @ name @ [CHR 0x27])))"

text \<open>
  The unique part of one attempt. \<open>rnd k\<close> is the sixteen bytes \<open>os.urandom\<close> hands to the
  \<open>uuid4()\<close> of attempt \<open>k\<close>.
\<close>

definition unique_part :: "entity \<Rightarrow> string \<Rightarrow> (nat \<Rightarrow> 128 word) \<Rightarrow> int \<Rightarrow> error + string" where
  "unique_part entity method rnd attempts =
     (if method = ''uuid'' then Inr (take 8 (uuid_str (uuid4_int (rnd (nat attempts)))))
      else if method = ''hash'' then
        (case (if attempts > 0 then dict_getitem_slice entity ''_collision'' attempts
               else Inr entity) of
           Inl e \<Rightarrow> Inl e
         | Inr salted_entity \<Rightarrow> Inr (take 10 (hash_dict salted_entity)))
      else Inl (ValueError (''Unknown method: '' @ method @
                            ''. Available methods: uuid, hash, sequential, slug'')))"

definition make_identifier :: "generator \<Rightarrow> string \<Rightarrow> string" where
  "make_identifier G unique =
     (case type_prefix G of
        None \<Rightarrow> namespace G @ unique
      | Some tp \<Rightarrow> namespace G @ tp @ ''-'' @ unique)"

text \<open>The statement after the loop: the message is built first, and building it may raise.\<close>

definition exhausted :: "entity \<Rightarrow> string \<Rightarrow> int \<Rightarrow> error" where
  "exhausted entity preflabel max_attempts =
     (case getattr_dict entity preflabel of
        Inl e \<Rightarrow> e
      | Inr label \<Rightarrow>
          RuntimeError (''Could not generate a unique identifier for '' @ [CHR 0x27] @ label @
                        [CHR 0x27] @ '' after '' @ str_int max_attempts @ '' attempts''))"

text \<open>
  The \<open>while attempts < max_attempts\<close> loop, from the value \<open>attempts\<close> on. The result is what
  \<open>generate_id\<close> returns or raises, with the generator as the call leaves it.
\<close>

function generate_id_loop ::
  "generator \<Rightarrow> entity \<Rightarrow> string \<Rightarrow> bool \<Rightarrow> int \<Rightarrow> string \<Rightarrow> (nat \<Rightarrow> 128 word) \<Rightarrow> int
     \<Rightarrow> (error + string) \<times> generator" where
  "generate_id_loop G entity method check_collision max_attempts preflabel rnd attempts =
     (if attempts < max_attempts then
        (case unique_part entity method rnd attempts of
           Inl e \<Rightarrow> (Inl e, G)
         | Inr unique \<Rightarrow>
             (let identifier = make_identifier G unique in
              if check_collision then
                (if is_id_available G identifier then (Inr identifier, register_id G identifier)
                 else generate_id_loop G entity method check_collision max_attempts preflabel rnd
                        (attempts + 1))
              else (Inr identifier, G)))
      else (Inl (exhausted entity preflabel max_attempts), G))"
  by pat_completeness auto
termination
  by (relation "measure (\<lambda>(G, entity, method, cc, max_attempts, preflabel, rnd, attempts).
        nat (max_attempts - attempts))") auto

definition generate_id ::
  "generator \<Rightarrow> entity \<Rightarrow> string \<Rightarrow> bool \<Rightarrow> int \<Rightarrow> string \<Rightarrow> (nat \<Rightarrow> 128 word)
     \<Rightarrow> (error + string) \<times> generator" where
  "generate_id G entity method check_collision max_attempts preflabel rnd =
     generate_id_loop G entity method check_collision max_attempts preflabel rnd 0"

text \<open>
  A sequence of calls on one generator, as \<open>pubmate/cli/mint.py\<close> makes them: \<open>register_id\<close>
  for an identifier that is kept, \<open>generate_id\<close> for a record that needs one. The outcome of
  every \<open>generate_id\<close> is listed in order; a call that raised leaves the generator as it was.
\<close>

datatype call =
    Generate entity string bool int string "nat \<Rightarrow> 128 word"
  | Register string

fun run_calls :: "generator \<Rightarrow> call list \<Rightarrow> (error + string) list \<times> generator" where
  "run_calls G [] = ([], G)"
| "run_calls G (Register identifier # cs) = run_calls (register_id G identifier) cs"
| "run_calls G (Generate entity method check_collision max_attempts preflabel rnd # cs) =
     (let (r, G') = generate_id G entity method check_collision max_attempts preflabel rnd;
          (rs, G'') = run_calls G' cs
      in (r # rs, G''))"

definition returned :: "(error + string) list \<Rightarrow> string list" where
  "returned rs = concat (map (\<lambda>r. case r of Inl e \<Rightarrow> [] | Inr x \<Rightarrow> [x]) rs)"

fun checks_collision :: "call \<Rightarrow> bool" where
  "checks_collision (Generate entity method check_collision max_attempts preflabel rnd) =
     check_collision"
| "checks_collision (Register identifier) = True"

text \<open>The generator and the record of the spec's first scenario.\<close>

definition example_generator :: generator where
  "example_generator = IdentifierGenerator ''http://example.org/term/'' None"

definition acetone :: entity where
  "acetone = [(''name'', JStr ''Acetone'')]"

definition no_random :: "nat \<Rightarrow> 128 word" where
  "no_random k = 0"

section \<open>pubmate/rdfcleaner.py: graphs\<close>

text \<open>
  An rdflib term is a \<open>URIRef\<close>, a \<open>BNode\<close> or a \<open>Literal\<close> with its lexical form, language tag
  and datatype. A \<open>Graph\<close> holds a set of triples, kept here as a list without repetitions in
  the order the store happens to iterate, and the prefixes bound in its store.
\<close>

datatype node = URIRef string | BNode string | Literal string "string option" "string option"

type_synonym triple = "node \<times> node \<times> node"

record graph =
  triples :: "triple list"
  namespaces :: "(string \<times> string) list"

text \<open>\<open>g.add(t)\<close>: a triple already in the graph is not added again.\<close>

definition graph_add :: "graph \<Rightarrow> triple \<Rightarrow> graph" where
  "graph_add g t = (if t \<in> set (triples g) then g else g\<lparr>triples := triples g @ [t]\<rparr>)"

text \<open>\<open>g.triples((s, p, None))\<close>, the objects only.\<close>

definition objects :: "graph \<Rightarrow> node \<Rightarrow> node \<Rightarrow> node list" where
  "objects g s p = concat (map (\<lambda>(s', p', ob). if s' = s \<and> p' = p then [ob] else []) (triples g))"

text \<open>\<open>g.triples((None, p, ob))\<close>, the subjects only.\<close>

definition subjects :: "graph \<Rightarrow> node \<Rightarrow> node \<Rightarrow> node list" where
  "subjects g p ob = concat (map (\<lambda>(s', p', ob'). if p' = p \<and> ob' = ob then [s'] else []) (triples g))"

text \<open>\<open>g.triples((s, None, None))\<close>.\<close>

definition triples_of :: "graph \<Rightarrow> node \<Rightarrow> triple list" where
  "triples_of g s = filter (\<lambda>(s', p', ob'). s' = s) (triples g)"

subsection \<open>add_language\<close>

text \<open>
  The two queries of \<open>add_language\<close> are embedded by what SPARQL 1.1 makes them compute on the
  triples of the graph. The f-strings write \<open>base_namespace\<close> and the entries of
  \<open>property_map\<close> into the query text, where the parser reads them back: \<open>"k"\<close> as the plain
  literal \<open>k\<close> and \<open><v>\<close> as the IRI \<open>v\<close>, provided \<open>k\<close> and \<open>v\<close> hold only characters
  that the grammar takes as they are. Between \<open><\<close> and \<open>>\<close> an \<open>IRIREF\<close> has no control
  character, space, \<open><\<close>, \<open>>\<close>, double quote, brace, bar, caret, backquote or backslash;
  between double quotes a \<open>STRING_LITERAL2\<close> has no double quote, backslash, line feed or
  carriage return as it is. With any other character the text is not the query meant, and
  \<open>g.query\<close> fails in the parser before the graph is touched (a text made up to spell
  another well-formed query is not followed).
\<close>

definition iri_text :: "string \<Rightarrow> bool" where
  "iri_text s =
     list_all (\<lambda>c. 32 < (of_char c :: nat) \<and>
                   c \<notin> set [CHR 0x3C, CHR 0x3E, CHR 0x22, CHR 0x7B, CHR 0x7D, CHR 0x7C, CHR 0x5E,
                              CHR 0x60, CHR 0x5C]) s"

definition string_text :: "string \<Rightarrow> bool" where
  "string_text s = list_all (\<lambda>c. c \<notin> set [CHR 0x22, CHR 0x5C, CHR 0x0A, CHR 0x0D]) s"

text \<open>
  The query text parses: \<open>base_namespace\<close> goes into \<open><{base_namespace}translations>\<close> and its
  three siblings, every item of \<open>property_map\<close> into a row \<open>("{k}" <{v}>)\<close>.
\<close>

definition query_text_ok :: "string \<Rightarrow> (string \<times> string) list \<Rightarrow> bool" where
  "query_text_ok base_namespace property_map =
     (iri_text base_namespace \<and> list_all (\<lambda>(k, v). string_text k \<and> iri_text v) property_map)"

definition TRANSLATIONS :: "string \<Rightarrow> node" where
  "TRANSLATIONS base_namespace = URIRef (base_namespace @ ''translations'')"

definition PROPERTY_NAME :: "string \<Rightarrow> node" where
  "PROPERTY_NAME base_namespace = URIRef (base_namespace @ ''property_name'')"

definition LANGUAGE :: "string \<Rightarrow> node" where
  "LANGUAGE base_namespace = URIRef (base_namespace @ ''language'')"

definition TRANSLATED_VALUE :: "string \<Rightarrow> node" where
  "TRANSLATED_VALUE base_namespace = URIRef (base_namespace @ ''translated_value'')"

text \<open>The rows of \<open>VALUES (?propName ?predicate)\<close>, one for each item of \<open>property_map\<close>.\<close>

definition build_values_block :: "(string \<times> string) list \<Rightarrow> (node \<times> node) list" where
  "build_values_block property_map = map (\<lambda>(k, v). (Literal k None None, URIRef v)) property_map"

text \<open>
  \<open>STRLANG(?value, ?lang)\<close> takes two simple literals (no language tag, no datatype); on
  anything else it is an error, \<open>?literal\<close> stays unbound and the row gives no triple.
\<close>

fun STRLANG :: "node \<Rightarrow> node \<Rightarrow> node option" where
  "STRLANG (Literal v None None) (Literal l None None) = Some (Literal v (Some l) None)"
| "STRLANG v l = None"

text \<open>The solutions of \<open>?subject TRANSLATIONS ?t\<close>.\<close>

definition translation_edges :: "graph \<Rightarrow> string \<Rightarrow> (node \<times> node) list" where
  "translation_edges g base_namespace =
     concat (map (\<lambda>(s, p, t). if p = TRANSLATIONS base_namespace then [(s, t)] else [])
               (triples g))"

text \<open>
  The triples the \<open>CONSTRUCT\<close> template gives for one solution of \<open>?subject\<close> and \<open>?t\<close>: one
  for every \<open>?propName\<close>, \<open>?lang\<close> and \<open>?value\<close> of \<open>?t\<close> and every row of the values block
  whose name is \<open>?propName\<close>.
\<close>

definition construct_for ::
  "graph \<Rightarrow> string \<Rightarrow> (string \<times> string) list \<Rightarrow> node \<Rightarrow> node \<Rightarrow> triple list" where
  "construct_for g base_namespace property_map subject t =
     [(subject, predicate, literal).
        propName \<leftarrow> objects g t (PROPERTY_NAME base_namespace),
        lang \<leftarrow> objects g t (LANGUAGE base_namespace),
        value \<leftarrow> objects g t (TRANSLATED_VALUE base_namespace),
        (name, predicate) \<leftarrow> build_values_block property_map,
        name = propName,
        literal \<leftarrow> (case STRLANG value lang of None \<Rightarrow> [] | Some l \<Rightarrow> [l])]"

definition construct_query :: "graph \<Rightarrow> string \<Rightarrow> (string \<times> string) list \<Rightarrow> triple list" where
  "construct_query g base_namespace property_map =
     concat (map (\<lambda>(subject, t). construct_for g base_namespace property_map subject t)
               (translation_edges g base_namespace))"

text \<open>
  The triples the \<open>DELETE\<close> template gives: for every solution of
  \<open>?subject TRANSLATIONS ?t . ?t ?p ?o\<close>, the edge and the triple of \<open>?t\<close>.
\<close>

definition delete_query :: "graph \<Rightarrow> string \<Rightarrow> triple list" where
  "delete_query g base_namespace =
     concat (map (\<lambda>(subject, t).
                concat (map (\<lambda>(t', p, ob). [(subject, TRANSLATIONS base_namespace, t), (t', p, ob)])
                          (triples_of g t)))
               (translation_edges g base_namespace))"

definition graph_remove :: "graph \<Rightarrow> triple list \<Rightarrow> graph" where
  "graph_remove g ds = g\<lparr>triples := filter (\<lambda>x. x \<notin> set ds) (triples g)\<rparr>"

definition endswith :: "string \<Rightarrow> string \<Rightarrow> bool" where
  "endswith s suffix = (length suffix \<le> length s \<and> drop (length s - length suffix) s = suffix)"

definition add_language :: "graph \<Rightarrow> string \<Rightarrow> (string \<times> string) list \<Rightarrow> error + graph" where
  "add_language g base_namespace property_map =
     (if \<not> (endswith base_namespace ''/'' \<or> endswith base_namespace ''#'') then
        Inl (ValueError (''base_namespace must end with '' @ [CHR 0x27] @ ''/'' @ [CHR 0x27] @
                         '' or '' @ [CHR 0x27] @ ''#'' @ [CHR 0x27]))
      else if \<not> query_text_ok base_namespace property_map then Inl ParseException
      else
        let constructed = construct_query g base_namespace property_map;
            g1 = foldl graph_add g constructed
        in Inr (graph_remove g1 (delete_query g1 base_namespace)))"




text \<open>
  The graph of the spec's scenario D under \<open>http://example.org/\<close>, with the property map of
  \<open>pubmate/cli/cleanrdf.py\<close>, and three variations: a translations edge to a node that has
  no triple, a translation node that has a translation of its own, and a node that carries a
  language only beside one that carries nothing.
\<close>

definition example_namespace :: string where
  "example_namespace = ''http://example.org/''"

definition rdfs_label :: string where
  "rdfs_label = ''http://www.w3.org/2000/01/rdf-schema#label''"

definition label_map :: "(string \<times> string) list" where
  "label_map = [(''label'', rdfs_label)]"

definition node_S :: node where
  "node_S = URIRef ''http://example.org/S''"

definition scenario_D :: graph where
  "scenario_D =
     \<lparr>triples =
        [(node_S, TRANSLATIONS example_namespace, BNode ''t''),
         (BNode ''t'', PROPERTY_NAME example_namespace, Literal ''label'' None None),
         (BNode ''t'', LANGUAGE example_namespace, Literal ''en'' None None),
         (BNode ''t'', TRANSLATED_VALUE example_namespace, Literal ''Foo'' None None)],
      namespaces = []\<rparr>"


definition nested_graph :: graph where
  "nested_graph =
     \<lparr>triples =
        [(node_S, TRANSLATIONS example_namespace, BNode ''t''),
         (BNode ''t'', PROPERTY_NAME example_namespace, Literal ''label'' None None),
         (BNode ''t'', LANGUAGE example_namespace, Literal ''en'' None None),
         (BNode ''t'', TRANSLATED_VALUE example_namespace, Literal ''Foo'' None None),
         (BNode ''t'', TRANSLATIONS example_namespace, BNode ''u''),
         (BNode ''u'', PROPERTY_NAME example_namespace, Literal ''label'' None None),
         (BNode ''u'', LANGUAGE example_namespace, Literal ''fr'' None None),
         (BNode ''u'', TRANSLATED_VALUE example_namespace, Literal ''Bar'' None None)],
      namespaces = []\<rparr>"


subsection \<open>split_into_assertions\<close>

text \<open>
  The splitter creates graphs while it reads its argument, so graphs live in a store and are
  named by their position in it; \<open>rdflib.Graph()\<close> takes the next free position.
\<close>

type_synonym heap = "graph list"

definition Graph_new :: "heap \<Rightarrow> nat \<times> heap" where
  "Graph_new h = (length h, h @ [\<lparr>triples = [], namespaces = []\<rparr>])"

definition RDFS_subClassOf :: node where
  "RDFS_subClassOf = URIRef ''http://www.w3.org/2000/01/rdf-schema#subClassOf''"

text \<open>
  \<open>g.namespace_manager.expand_curie(curie)\<close>: the text is cut at its first colon; it raises
  when there is no colon or the prefix is not bound.
\<close>

definition expand_curie :: "graph \<Rightarrow> string \<Rightarrow> error + node" where
  "expand_curie g curie =
     (if CHR '':'' \<notin> set curie then
        Inl (ValueError ''Malformed curie argument'')
      else
        case map_of (namespaces g) (takeWhile (\<lambda>c. c \<noteq> CHR '':'') curie) of
          Some ns \<Rightarrow> Inr (URIRef (ns @ tl (dropWhile (\<lambda>c. c \<noteq> CHR '':'') curie)))
        | None \<Rightarrow> Inl (ValueError ''Prefix not bound to any namespace''))"

text \<open>The \<open>try\<close> around it: any exception gives \<open>URIRef(clss)\<close>.\<close>

definition parent_of :: "graph \<Rightarrow> string \<Rightarrow> node" where
  "parent_of g clss = (case expand_curie g clss of Inr parent \<Rightarrow> parent | Inl e \<Rightarrow> URIRef clss)"

text \<open>A term is a Python string: its IRI, its blank node label or its lexical form.\<close>

fun node_str :: "node \<Rightarrow> string" where
  "node_str (URIRef s) = s"
| "node_str (BNode s) = s"
| "node_str (Literal s lang dt) = s"

text \<open>\<open>s.split(c)[-1]\<close>: what follows the last \<open>c\<close>, all of \<open>s\<close> when there is none.\<close>

definition split_last :: "char \<Rightarrow> string \<Rightarrow> string" where
  "split_last c s = rev (takeWhile (\<lambda>x. x \<noteq> c) (rev s))"

definition term_id_of :: "node \<Rightarrow> string" where
  "term_id_of subclass =
     (if CHR ''#'' \<in> set (node_str subclass) then split_last CHR ''#'' (node_str subclass)
      else split_last CHR ''/'' (node_str subclass))"

text \<open>\<open>for triple in ...: assertion_graph.add(triple)\<close> on the graph at position \<open>a\<close>.\<close>

fun add_triples :: "heap \<Rightarrow> nat \<Rightarrow> triple list \<Rightarrow> heap" where
  "add_triples h a [] = h"
| "add_triples h a (t # ts) = add_triples (h[a := graph_add (h ! a) t]) a ts"

text \<open>
  The inner loop over the subclasses found for one parent; \<open>ga\<close> is the position of \<open>g\<close>.
  Each pair yielded is the term id and the position of the new assertion graph.
\<close>

fun for_subclasses :: "heap \<Rightarrow> nat \<Rightarrow> node list \<Rightarrow> (string \<times> nat) list \<times> heap" where
  "for_subclasses h ga [] = ([], h)"
| "for_subclasses h ga (subclass # rest) =
     (let term_id = term_id_of subclass;
          (assertion_graph, h1) = Graph_new h;
          h2 = add_triples h1 assertion_graph (triples_of (h1 ! ga) subclass);
          (ys, h3) = for_subclasses h2 ga rest
      in ((term_id, assertion_graph) # ys, h3))"

fun for_classes :: "heap \<Rightarrow> nat \<Rightarrow> string list \<Rightarrow> (string \<times> nat) list \<times> heap" where
  "for_classes h ga [] = ([], h)"
| "for_classes h ga (clss # rest) =
     (let parent = parent_of (h ! ga) clss;
          (ys, h1) = for_subclasses h ga (subjects (h ! ga) RDFS_subClassOf parent);
          (zs, h2) = for_classes h1 ga rest
      in (ys @ zs, h2))"

text \<open>
  The generator run to its end: the pairs in the order they are yielded, and the store
  afterwards. \<open>all_classes\<close> is the set in the order Python iterates it.
\<close>

definition split_into_assertions ::
  "heap \<Rightarrow> nat \<Rightarrow> string list \<Rightarrow> (string \<times> nat) list \<times> heap" where
  "split_into_assertions h g all_classes = for_classes h g all_classes"

text \<open>
  What a yielded pair holds in a store, and what the pair for a subclass is to hold: the term
  id and the triples whose subject is the subclass.
\<close>

definition content :: "heap \<Rightarrow> string \<times> nat \<Rightarrow> string \<times> triple set" where
  "content h y = (fst y, set (triples (h ! snd y)))"

definition expected :: "graph \<Rightarrow> node \<Rightarrow> string \<times> triple set" where
  "expected g subclass = (term_id_of subclass, set (triples_of g subclass))"

text \<open>
  The graph of the spec's scenario E, with one triple more on \<open>A\<close> and one on the parent, and
  the prefix \<open>ex\<close> bound.
\<close>

definition scenario_E :: graph where
  "scenario_E =
     \<lparr>triples =
        [(URIRef ''http://example.org/A'', RDFS_subClassOf, URIRef ''http://example.org/Parent''),
         (URIRef ''http://example.org/v#B'', RDFS_subClassOf, URIRef ''http://example.org/Parent''),
         (URIRef ''http://example.org/A'', URIRef rdfs_label, Literal ''a'' None None),
         (URIRef ''http://example.org/Parent'', URIRef rdfs_label, Literal ''parent'' None None)],
      namespaces = [(''ex'', ''http://example.org/'')]\<rparr>"

section \<open>Properties of the identifier generator\<close>

declare generate_id_loop.simps [simp del]

lemma is_hex_hex_digit: "is_hex (hex_digit n)"
proof -
  have "n mod 16 < length ''0123456789abcdef''" by simp
  then have "''0123456789abcdef'' ! (n mod 16) \<in> set ''0123456789abcdef''"
    by (rule nth_mem)
  then show ?thesis unfolding is_hex_def hex_digit_def .
qed

lemma is_hex_nibble: "is_hex (nibble w s)"
  by (simp add: nibble_def is_hex_hex_digit)

lemma hex32_hex: "length (hex32 w) = 8 \<and> (\<forall>c \<in> set (hex32 w). is_hex c)"
  by (simp add: hex32_def is_hex_nibble)

lemma length_sha256_round: "length (sha256_round v kw) = length v"
  by (induction v kw rule: sha256_round.induct) (simp_all add: Let_def)

lemma length_foldl_round: "length (foldl sha256_round v kws) = length v"
  by (induction kws arbitrary: v) (simp_all add: length_sha256_round)

lemma length_sha256_block: "length (sha256_block hs b) = length hs"
  by (simp add: sha256_block_def length_foldl_round)

lemma length_sha256_blocks: "length (sha256_blocks n hs bs) = length hs"
  by (induction n arbitrary: hs bs) (simp_all add: length_sha256_block)

lemma concat_hex32: "length (concat (map hex32 ws)) = 8 * length ws \<and> (\<forall>c \<in> set (concat (map hex32 ws)). is_hex c)"
  by (induction ws) (auto simp: hex32_hex)

lemma sha256_hexdigest_hex:
  "length (sha256_hexdigest bs) = 64 \<and> (\<forall>c \<in> set (sha256_hexdigest bs). is_hex c)"
  using concat_hex32 [of "sha256_blocks (length (sha256_pad bs) div 64) sha256_H0 (sha256_pad bs)"]
  by (simp add: sha256_hexdigest_def Let_def length_sha256_blocks sha256_H0_def)

lemma re_match_hex_exact:
  assumes "length s = n" and "\<forall>c \<in> set s. is_hex c"
  shows "re_match_hex n s"
proof -
  have tw: "takeWhile is_hex s = s" using assms(2) by (simp add: takeWhile_eq_all_conv)
  show ?thesis unfolding re_match_hex_def tw using assms(1) by simp
qed

lemma hash_part_ok: "re_match_hex 10 (take 10 (hash_dict e))"
proof (rule re_match_hex_exact)
  show "length (take 10 (hash_dict e)) = 10"
    using sha256_hexdigest_hex by (simp add: hash_dict_def)
  show "\<forall>c \<in> set (take 10 (hash_dict e)). is_hex c"
    using sha256_hexdigest_hex by (auto simp: hash_dict_def dest: in_set_takeD)
qed

lemma uuid_part_ok: "re_match_hex 8 (take 8 (uuid_str w))"
proof -
  let ?hex = "map (nibble w) (rev (map (\<lambda>i. 4 * i) [0..<32]))"
  have len: "length ?hex = 32" by simp
  have eq: "take 8 (uuid_str w) = take 8 ?hex"
    unfolding uuid_str_def Let_def using len by (simp del: upt_rec_numeral)
  show ?thesis unfolding eq
  proof (rule re_match_hex_exact)
    show "length (take 8 ?hex) = 8" using len by (simp del: upt_rec_numeral)
    show "\<forall>c \<in> set (take 8 ?hex). is_hex c"
      by (auto dest!: in_set_takeD simp: is_hex_nibble simp del: upt_rec_numeral)
  qed
qed

lemma unique_part_ok:
  assumes "unique_part entity method rnd attempts = Inr u"
  shows "(method = ''uuid'' \<and> re_match_hex 8 u) \<or> (method = ''hash'' \<and> method \<noteq> ''uuid'' \<and> re_match_hex 10 u)"
  using assms
  by (auto simp: unique_part_def dict_getitem_slice_def hash_part_ok uuid_part_ok split: if_splits sum.splits)

lemma is_valid_make_identifier:
  assumes "unique_part entity method rnd attempts = Inr u"
  shows "is_valid_id G (make_identifier G u) method = Inr True"
  using unique_part_ok [OF assms]
  by (cases "type_prefix G") (auto simp: is_valid_id_def make_identifier_def startswith_def Let_def)

lemma generate_id_loop_returns:
  assumes "generate_id_loop G entity meth cc max_attempts preflabel rnd attempts = (Inr x, G')"
  shows "\<exists>u k. unique_part entity meth rnd k = Inr u \<and> x = make_identifier G u \<and>
           namespace G' = namespace G \<and> type_prefix G' = type_prefix G \<and>
           (cc \<longrightarrow> x \<notin> registered_ids G \<and> registered_ids G' = insert x (registered_ids G)) \<and> (\<not> cc \<longrightarrow> G' = G)"
  using assms
proof (induction G entity meth cc max_attempts preflabel rnd attempts rule: generate_id_loop.induct)
  case (1 G entity meth cc max_attempts preflabel rnd attempts)
  show ?case
  proof (cases "attempts < max_attempts")
    case False
    with "1.prems" show ?thesis by (simp add: generate_id_loop.simps)
  next
    case True
    show ?thesis
    proof (cases "unique_part entity meth rnd attempts")
      case (Inl e)
      with True "1.prems" show ?thesis by (simp add: generate_id_loop.simps)
    next
      case (Inr u)
      show ?thesis
      proof (cases "cc \<and> \<not> is_id_available G (make_identifier G u)")
        case True
        with \<open>attempts < max_attempts\<close> Inr "1.prems" "1.IH"[of u "make_identifier G u"]
        show ?thesis by (simp add: generate_id_loop.simps)
      next
        case False
        with \<open>attempts < max_attempts\<close> Inr "1.prems" show ?thesis
          by (auto simp: generate_id_loop.simps[of G] Let_def register_id_def is_id_available_def split: if_splits)
      qed
    qed
  qed
qed


text \<open>The digest of \<open>b"abc"\<close>, as FIPS 180-4 and \<open>hashlib\<close> give it.\<close>

lemma sha256_abc:
  "sha256_hexdigest (map of_char ''abc'') =
     ''ba7816bf8f01cfea414140de5dae2223b00361a396177a9cb410ff61f20015ad''"
  by code_simp

text \<open>The first ten digits of the digest of \<open>{"name":"Acetone"}\<close>.\<close>

lemma hash_dict_acetone: "take 10 (hash_dict acetone) = ''f12530d320''"
  unfolding hash_dict_def acetone_def by code_simp




text \<open>
  Claim C2. Every identifier that \<open>generate_id\<close> returns, for either method, with or
  without a type prefix and whatever the namespace, is accepted by \<open>is_valid_id\<close> with the
  same method, on the generator before the call and on the generator after it.
\<close>

theorem generate_id_valid:
  assumes "generate_id G entity method check_collision max_attempts preflabel rnd = (Inr x, G')"
  shows "is_valid_id G x method = Inr True \<and> is_valid_id G' x method = Inr True"
proof -
  from assms obtain u k where u: "unique_part entity method rnd k = Inr u"
    and x: "x = make_identifier G u"
    and ns: "namespace G' = namespace G" and tp: "type_prefix G' = type_prefix G"
    unfolding generate_id_def by (blast dest: generate_id_loop_returns)
  have "make_identifier G' u = make_identifier G u"
    by (simp add: make_identifier_def ns tp split: option.splits)
  with is_valid_make_identifier [OF u, of G] is_valid_make_identifier [OF u, of G'] x
  show ?thesis by simp
qed

lemma generate_id_acetone:
  "generate_id example_generator acetone ''hash'' True 10 ''name'' no_random =
     (Inr ''http://example.org/term/f12530d320'',
      register_id example_generator ''http://example.org/term/f12530d320'')"
  by (simp add: generate_id_def generate_id_loop.simps[of _ _ _ _ _ _ _ 0] unique_part_def
      make_identifier_def hash_dict_acetone is_id_available_def example_generator_def
      IdentifierGenerator_def Let_def)

text \<open>
  Claim C2 at the first scenario: the record \<open>{"name": "Acetone"}\<close> under
  \<open>http://example.org/term/\<close>.
\<close>

theorem generate_id_valid_witness:
  "generate_id example_generator acetone ''hash'' True 10 ''name'' no_random =
     (Inr ''http://example.org/term/f12530d320'',
      register_id example_generator ''http://example.org/term/f12530d320'') \<and>
   is_valid_id example_generator ''http://example.org/term/f12530d320'' ''hash'' = Inr True"
  using generate_id_valid [OF generate_id_acetone] generate_id_acetone by simp

text \<open>
  Claim C1 fails on the code. With the first candidate of the record already registered,
  the second attempt evaluates \<open>entity["_collision":attempts]\<close>, which raises \<open>TypeError\<close>:
  no second candidate is computed.
\<close>

theorem generate_id_retry_raises:
  "generate_id (register_id example_generator ''http://example.org/term/f12530d320'')
     acetone ''hash'' True 10 ''name'' no_random =
     (Inl (TypeError (''unhashable type: '' @ [CHR 0x27] @ ''slice'' @ [CHR 0x27])),
      register_id example_generator ''http://example.org/term/f12530d320'')"
  by (simp add: generate_id_def generate_id_loop.simps[of _ _ _ _ _ _ _ 0]
      generate_id_loop.simps[of _ _ _ _ _ _ _ 1] unique_part_def
      make_identifier_def hash_dict_acetone is_id_available_def example_generator_def
      IdentifierGenerator_def register_id_def dict_getitem_slice_def Let_def)

text \<open>
  Claim C6 fails on the code. With one attempt allowed and its candidate already registered,
  the loop ends and the message of the \<open>RuntimeError\<close> is built with
  \<open>getattr(entity, preflabel)\<close>, which raises \<open>AttributeError\<close> on a dict: the error raised is
  not the \<open>RuntimeError\<close> and does not name the label.
\<close>

theorem generate_id_exhausted_raises:
  "generate_id (register_id example_generator ''http://example.org/term/f12530d320'')
     acetone ''hash'' True 1 ''name'' no_random =
     (Inl (AttributeError ([CHR 0x27] @ ''dict'' @ [CHR 0x27] @ '' object has no attribute '' @
                           [CHR 0x27] @ ''name'' @ [CHR 0x27])),
      register_id example_generator ''http://example.org/term/f12530d320'')"
  by (simp add: generate_id_def generate_id_loop.simps[of _ _ _ _ _ _ _ 0]
      generate_id_loop.simps[of _ _ _ _ _ _ _ 1] unique_part_def
      make_identifier_def hash_dict_acetone is_id_available_def example_generator_def
      IdentifierGenerator_def register_id_def exhausted_def getattr_dict_def dict_attribute_names_def Let_def)

lemma generate_id_loop_raises:
  assumes "generate_id_loop G entity meth cc max_attempts preflabel rnd attempts = (Inl e, G')"
  shows "G' = G"
  using assms
proof (induction G entity meth cc max_attempts preflabel rnd attempts rule: generate_id_loop.induct)
  case (1 G entity meth cc max_attempts preflabel rnd attempts)
  from "1.prems" show ?case
    by (subst (asm) generate_id_loop.simps)
       (auto simp: Let_def split: if_splits sum.splits dest: "1.IH")
qed

lemma generate_id_registry:
  assumes "generate_id G entity meth True max_attempts preflabel rnd = (r, G')"
  shows "registered_ids G \<subseteq> registered_ids G' \<and>
         (\<forall>x. r = Inr x \<longrightarrow> x \<notin> registered_ids G \<and> x \<in> registered_ids G')"
proof (cases r)
  case (Inl e)
  with assms have "G' = G" unfolding generate_id_def by (blast dest: generate_id_loop_raises)
  with Inl show ?thesis by simp
next
  case (Inr x)
  with assms have "x \<notin> registered_ids G \<and> registered_ids G' = insert x (registered_ids G)"
    unfolding generate_id_def by (blast dest: generate_id_loop_returns)
  with Inr show ?thesis by auto
qed

lemma returned_Cons:
  "returned (r # rs) = (case r of Inl e \<Rightarrow> [] | Inr x \<Rightarrow> [x]) @ returned rs"
  by (simp add: returned_def)

lemma run_calls_registry:
  assumes "\<forall>c \<in> set cs. checks_collision c" and "run_calls G cs = (rs, G')"
  shows "registered_ids G \<subseteq> registered_ids G' \<and>
         set (returned rs) \<subseteq> registered_ids G' - registered_ids G \<and>
         distinct (returned rs)"
  using assms
proof (induction cs arbitrary: G rs G')
  case Nil
  then show ?case by (simp add: returned_def)
next
  case (Cons c cs)
  show ?case
  proof (cases c)
    case (Register i)
    with Cons.prems have "run_calls (register_id G i) cs = (rs, G')" by simp
    with Cons.prems(1) Cons.IH [of "register_id G i" rs G']
    show ?thesis by (auto simp: register_id_def)
  next
    case (Generate entity meth cc max_attempts preflabel rnd)
    with Cons.prems(1) have cc: "cc" by simp
    obtain r G1 where g: "generate_id G entity meth True max_attempts preflabel rnd = (r, G1)"
      by (cases "generate_id G entity meth True max_attempts preflabel rnd")
    obtain rs' G2 where rest: "run_calls G1 cs = (rs', G2)"
      by (cases "run_calls G1 cs")
    from Cons.prems(2) Generate cc g rest have rs: "rs = r # rs'" and G': "G' = G2"
      by simp_all
    from Cons.prems(1) Cons.IH [OF _ rest]
    have ih: "registered_ids G1 \<subseteq> registered_ids G2"
      "set (returned rs') \<subseteq> registered_ids G2 - registered_ids G1" "distinct (returned rs')"
      by simp_all
    from generate_id_registry [OF g]
    have mono: "registered_ids G \<subseteq> registered_ids G1"
      and new: "\<And>x. r = Inr x \<Longrightarrow> x \<notin> registered_ids G \<and> x \<in> registered_ids G1"
      by blast+
    show ?thesis
    proof (cases r)
      case (Inl e)
      with ih mono show ?thesis unfolding rs G' returned_Cons by auto
    next
      case (Inr x)
      with ih mono new [OF Inr] show ?thesis unfolding rs G' returned_Cons by auto
    qed
  qed
qed

text \<open>
  Claim C5, amended. In any sequence of \<open>register_id\<close> and \<open>generate_id\<close> calls on one
  generator in which every \<open>generate_id\<close> is made with \<open>check_collision=True\<close>, no identifier
  is returned twice.
\<close>

theorem generate_id_no_repeat:
  assumes "\<forall>c \<in> set cs. checks_collision c"
  shows "distinct (returned (fst (run_calls G cs)))"
  using run_calls_registry [OF assms, of G "fst (run_calls G cs)" "snd (run_calls G cs)"]
  by simp

lemma uuid_zero: "take 8 (uuid_str (uuid4_int 0)) = ''00000000''"
  by code_simp

lemma generate_id_acetone_uuid:
  "generate_id (register_id example_generator ''http://example.org/term/f12530d320'')
     acetone ''uuid'' True 10 ''name'' no_random =
     (Inr ''http://example.org/term/00000000'',
      register_id (register_id example_generator ''http://example.org/term/f12530d320'')
        ''http://example.org/term/00000000'')"
  by (simp add: generate_id_def generate_id_loop.simps[of _ _ _ _ _ _ _ 0] unique_part_def
      make_identifier_def uuid_zero no_random_def is_id_available_def example_generator_def
      IdentifierGenerator_def register_id_def Let_def)

text \<open>
  The amended claim C5 on two calls for the same record, by hash and then by uuid.
\<close>

theorem generate_id_no_repeat_witness:
  "checks_collision (Generate acetone ''hash'' True 10 ''name'' no_random) \<and>
   checks_collision (Generate acetone ''uuid'' True 10 ''name'' no_random) \<and>
   returned (fst (run_calls example_generator
     [Generate acetone ''hash'' True 10 ''name'' no_random,
      Generate acetone ''uuid'' True 10 ''name'' no_random])) =
     [''http://example.org/term/f12530d320'', ''http://example.org/term/00000000''] \<and>
   distinct (returned (fst (run_calls example_generator
     [Generate acetone ''hash'' True 10 ''name'' no_random,
      Generate acetone ''uuid'' True 10 ''name'' no_random])))"
  using generate_id_no_repeat [of "[Generate acetone ''hash'' True 10 ''name'' no_random,
      Generate acetone ''uuid'' True 10 ''name'' no_random]" example_generator]
  by (simp add: generate_id_acetone generate_id_acetone_uuid returned_def)

lemma generate_id_acetone_unchecked:
  "generate_id example_generator acetone ''hash'' False 10 ''name'' no_random =
     (Inr ''http://example.org/term/f12530d320'', example_generator)"
  by (simp add: generate_id_def generate_id_loop.simps[of _ _ _ _ _ _ _ 0] unique_part_def
      make_identifier_def hash_dict_acetone example_generator_def IdentifierGenerator_def Let_def)

text \<open>
  Claim C5 as stated fails: with \<open>check_collision=False\<close> nothing is registered, and two
  calls for the same record return the same identifier.
\<close>

theorem generate_id_no_repeat_counterexample:
  "returned (fst (run_calls example_generator
     [Generate acetone ''hash'' False 10 ''name'' no_random,
      Generate acetone ''hash'' False 10 ''name'' no_random])) =
     [''http://example.org/term/f12530d320'', ''http://example.org/term/f12530d320'']"
  by (simp add: generate_id_acetone_unchecked returned_def)

section \<open>Properties of add_language\<close>

lemma set_objects: "set (objects g s p) = {ob. (s, p, ob) \<in> set (triples g)}"
  by (auto simp: objects_def split: if_splits)

lemma set_subjects: "set (subjects g p ob) = {s. (s, p, ob) \<in> set (triples g)}"
  by (auto simp: subjects_def split: if_splits)

lemma set_triples_of: "set (triples_of g s) = {(s', p, ob). s' = s \<and> (s, p, ob) \<in> set (triples g)}"
  by (auto simp: triples_of_def)

lemma set_translation_edges:
  "set (translation_edges g ns) = {(s, t). (s, TRANSLATIONS ns, t) \<in> set (triples g)}"
  by (auto simp: translation_edges_def split: if_splits)


lemma graph_add_triples: "set (triples (graph_add g t)) = insert t (set (triples g))"
  by (auto simp: graph_add_def)


lemma set_delete_query:
  "set (delete_query g ns) =
     {d. \<exists>s t p ob. (s, TRANSLATIONS ns, t) \<in> set (triples g) \<and> (t, p, ob) \<in> set (triples g) \<and>
                     (d = (s, TRANSLATIONS ns, t) \<or> d = (t, p, ob))}"
  unfolding delete_query_def
  by (auto simp: set_translation_edges set_triples_of)





lemma add_language_Inr:
  assumes "add_language g ns pm = Inr g'"
  shows "g' = graph_remove (foldl graph_add g (construct_query g ns pm))
                (delete_query (foldl graph_add g (construct_query g ns pm)) ns)"
  using assms by (simp add: add_language_def Let_def split: if_splits)

lemma graph_remove_triples: "set (triples (graph_remove g ds)) = set (triples g) - set ds"
  by (auto simp: graph_remove_def)


text \<open>A translations edge that survives the deletion points to a node without triples.\<close>

lemma surviving_edge:
  assumes "(s, TRANSLATIONS ns, t) \<in> set (triples (graph_remove g1 (delete_query g1 ns)))"
  shows "(t, p, ob) \<notin> set (triples g1)"
proof
  assume t: "(t, p, ob) \<in> set (triples g1)"
  from assms have e: "(s, TRANSLATIONS ns, t) \<in> set (triples g1)"
    and nd: "(s, TRANSLATIONS ns, t) \<notin> set (delete_query g1 ns)"
    by (simp_all add: graph_remove_triples)
  from e t have "(s, TRANSLATIONS ns, t) \<in> set (delete_query g1 ns)"
    unfolding set_delete_query by blast
  with nd show False ..
qed


lemma triples_of_empty: "triples_of g t = [] \<longleftrightarrow> (\<forall>p ob. (t, p, ob) \<notin> set (triples g))"
proof -
  have "triples_of g t = [] \<longleftrightarrow> set (triples_of g t) = {}" by simp
  also have "\<dots> \<longleftrightarrow> (\<forall>p ob. (t, p, ob) \<notin> set (triples g))"
    unfolding set_triples_of by auto
  finally show ?thesis .
qed

lemma objects_empty: "objects g t p = [] \<longleftrightarrow> (\<forall>ob. (t, p, ob) \<notin> set (triples g))"
proof -
  have "objects g t p = [] \<longleftrightarrow> set (objects g t p) = {}" by simp
  also have "\<dots> \<longleftrightarrow> (\<forall>ob. (t, p, ob) \<notin> set (triples g))"
    unfolding set_objects by auto
  finally show ?thesis .
qed

lemma construct_for_no_name:
  "objects g t (PROPERTY_NAME ns) = [] \<Longrightarrow> construct_for g ns pm s t = []"
  by (simp add: construct_for_def)

lemma no_edges_to_subjects_construct:
  assumes "\<And>s t. (s, TRANSLATIONS ns, t) \<in> set (triples g) \<Longrightarrow> triples_of g t = []"
  shows "construct_query g ns pm = []"
proof -
  have "construct_for g ns pm s t = []" if "(s, t) \<in> set (translation_edges g ns)" for s t
  proof -
    from that have "triples_of g t = []" using assms by (simp add: set_translation_edges)
    then have "objects g t (PROPERTY_NAME ns) = []"
      by (simp add: triples_of_empty objects_empty)
    then show ?thesis by (rule construct_for_no_name)
  qed
  then show ?thesis by (auto simp: construct_query_def)
qed

lemma no_edges_to_subjects_delete:
  assumes "\<And>s t. (s, TRANSLATIONS ns, t) \<in> set (triples g) \<Longrightarrow> triples_of g t = []"
  shows "delete_query g ns = []"
proof -
  have "triples_of g t = []" if "(s, t) \<in> set (translation_edges g ns)" for s t
    using that assms by (simp add: set_translation_edges)
  then show ?thesis by (auto simp: delete_query_def)
qed

lemma graph_remove_nothing: "graph_remove g [] = g"
  by (simp add: graph_remove_def)

text \<open>
  Claim C8. A second run of \<open>add_language\<close>, with the same namespace and property map, on
  the graph a first run produced returns that graph unchanged.
\<close>

theorem add_language_idempotent:
  assumes "add_language g base_namespace property_map = Inr g'"
  shows "add_language g' base_namespace property_map = Inr g'"
proof -
  let ?g1 = "foldl graph_add g (construct_query g base_namespace property_map)"
  have g': "g' = graph_remove ?g1 (delete_query ?g1 base_namespace)"
    by (rule add_language_Inr [OF assms])
  have sub: "set (triples g') \<subseteq> set (triples ?g1)"
    unfolding g' graph_remove_triples by blast
  have clean: "triples_of g' t = []" if "(s, TRANSLATIONS base_namespace, t) \<in> set (triples g')" for s t
    unfolding triples_of_empty using surviving_edge [of s base_namespace t ?g1] that sub
    unfolding g' by blast
  have c: "construct_query g' base_namespace property_map = []"
    by (rule no_edges_to_subjects_construct) (rule clean)
  have d: "delete_query g' base_namespace = []"
    by (rule no_edges_to_subjects_delete) (rule clean)
  from assms have "(endswith base_namespace ''/'' \<or> endswith base_namespace ''#'') \<and>
      query_text_ok base_namespace property_map"
    by (simp add: add_language_def split: if_splits)
  then show ?thesis
    by (simp add: add_language_def c d graph_remove_nothing)
qed











lemma add_language_nested:
  "add_language nested_graph example_namespace label_map =
     Inr \<lparr>triples = [(node_S, URIRef rdfs_label, Literal ''Foo'' (Some ''en'') None)],
          namespaces = []\<rparr>"
  by code_simp







text \<open>
  A space in the namespace: the text between \<open><\<close> and \<open>>\<close> is no \<open>IRIREF\<close>, and the call
  fails in the parser.
\<close>

lemma add_language_unparsed:
  "add_language scenario_D ''http://example.org/my ns/'' label_map = Inl ParseException"
  by code_simp


text \<open>
  Claim C8 on the graph with a nested translation.
\<close>

theorem add_language_idempotent_witness:
  "add_language nested_graph example_namespace label_map =
     Inr \<lparr>triples = [(node_S, URIRef rdfs_label, Literal ''Foo'' (Some ''en'') None)],
          namespaces = []\<rparr> \<and>
   add_language \<lparr>triples = [(node_S, URIRef rdfs_label, Literal ''Foo'' (Some ''en'') None)],
                  namespaces = []\<rparr> example_namespace label_map =
     Inr \<lparr>triples = [(node_S, URIRef rdfs_label, Literal ''Foo'' (Some ''en'') None)],
          namespaces = []\<rparr>"
  using add_language_idempotent [OF add_language_nested] add_language_nested by blast

section \<open>Properties of split_into_assertions\<close>

lemma add_triples_length: "length (add_triples h a ts) = length h"
  by (induction ts arbitrary: h) simp_all

lemma add_triples_other: "i \<noteq> a \<Longrightarrow> add_triples h a ts ! i = h ! i"
  by (induction ts arbitrary: h) simp_all

lemma add_triples_at:
  "a < length h \<Longrightarrow> set (triples (add_triples h a ts ! a)) = set (triples (h ! a)) \<union> set ts"
  by (induction ts arbitrary: h) (simp_all add: graph_add_triples)

lemma for_subclasses_store:
  assumes "for_subclasses h ga subs = (ys, h')" and "ga < length h"
  shows "length h \<le> length h' \<and> (\<forall>i < length h. h' ! i = h ! i) \<and>
         (\<forall>y \<in> set ys. snd y < length h') \<and>
         map (content h') ys = map (expected (h ! ga)) subs"
  using assms
proof (induction subs arbitrary: h ys h')
  case Nil
  then show ?case by simp
next
  case (Cons sub rest)
  let ?a = "length h"
  let ?h1 = "h @ [\<lparr>triples = [], namespaces = []\<rparr>]"
  let ?h2 = "add_triples ?h1 ?a (triples_of (?h1 ! ga) sub)"
  obtain ys' h3 where rest: "for_subclasses ?h2 ga rest = (ys', h3)"
    by (cases "for_subclasses ?h2 ga rest")
  from Cons.prems(1) rest have ys: "ys = (term_id_of sub, ?a) # ys'" and h': "h' = h3"
    by (simp_all add: Graph_new_def Let_def)
  have len2: "length ?h2 = Suc (length h)" by (simp add: add_triples_length)
  have g1: "?h1 ! ga = h ! ga" using Cons.prems(2) by (simp add: nth_append)
  have old2: "?h2 ! i = h ! i" if "i < length h" for i
    using that by (simp add: add_triples_other nth_append)
  have new2: "set (triples (?h2 ! ?a)) = set (triples_of (h ! ga) sub)"
    using add_triples_at [of ?a ?h1 "triples_of (?h1 ! ga) sub"] g1 by simp
  from Cons.prems(2) len2 have ga2: "ga < length ?h2" by simp
  from Cons.IH [OF rest ga2]
  have ih: "length ?h2 \<le> length h3" "\<forall>i < length ?h2. h3 ! i = ?h2 ! i"
    "\<forall>y \<in> set ys'. snd y < length h3" "map (content h3) ys' = map (expected (?h2 ! ga)) rest"
    by simp_all
  from ih(2) len2 have keep: "h3 ! i = ?h2 ! i" if "i \<le> length h" for i
    using that by simp
  have "content h3 (term_id_of sub, ?a) = expected (h ! ga) sub"
    using keep [of ?a] new2 by (simp add: content_def expected_def)
  moreover have "map (content h3) ys' = map (expected (h ! ga)) rest"
    using ih(4) old2 [OF Cons.prems(2)] by simp
  moreover have "length h \<le> length h3" using ih(1) len2 by simp
  moreover have "\<forall>i < length h. h3 ! i = h ! i" using keep old2 by simp
  moreover have "?a < length h3" using ih(1) len2 by simp
  ultimately show ?case unfolding ys h' using ih(3) by simp
qed

lemma content_kept:
  assumes "\<forall>y \<in> set ys. snd y < n" and "\<forall>i < n. h2 ! i = h1 ! i"
  shows "map (content h2) ys = map (content h1) ys"
  using assms by (simp add: content_def)

lemma for_classes_store:
  assumes "for_classes h ga cs = (ys, h')" and "ga < length h"
  shows "length h \<le> length h' \<and> (\<forall>i < length h. h' ! i = h ! i) \<and>
         map (content h') ys =
           concat (map (\<lambda>clss. map (expected (h ! ga))
                                  (subjects (h ! ga) RDFS_subClassOf (parent_of (h ! ga) clss))) cs)"
  using assms
proof (induction cs arbitrary: h ys h')
  case Nil
  then show ?case by simp
next
  case (Cons clss rest)
  let ?subs = "subjects (h ! ga) RDFS_subClassOf (parent_of (h ! ga) clss)"
  obtain ys1 h1 where inner: "for_subclasses h ga ?subs = (ys1, h1)"
    by (cases "for_subclasses h ga ?subs")
  obtain zs h2 where outer: "for_classes h1 ga rest = (zs, h2)"
    by (cases "for_classes h1 ga rest")
  from Cons.prems(1) inner outer have ys: "ys = ys1 @ zs" and h': "h' = h2"
    by (simp_all add: Let_def)
  from for_subclasses_store [OF inner Cons.prems(2)]
  have s: "length h \<le> length h1" "\<forall>i < length h. h1 ! i = h ! i"
    "\<forall>y \<in> set ys1. snd y < length h1" "map (content h1) ys1 = map (expected (h ! ga)) ?subs"
    by simp_all
  from s(1) Cons.prems(2) have ga1: "ga < length h1" by simp
  from s(2) Cons.prems(2) have g1: "h1 ! ga = h ! ga" by simp
  from Cons.IH [OF outer ga1]
  have ih: "length h1 \<le> length h2" "\<forall>i < length h1. h2 ! i = h1 ! i"
    "map (content h2) zs =
       concat (map (\<lambda>clss. map (expected (h1 ! ga))
                              (subjects (h1 ! ga) RDFS_subClassOf (parent_of (h1 ! ga) clss))) rest)"
    by simp_all
  have "map (content h2) ys1 = map (expected (h ! ga)) ?subs"
    using content_kept [OF s(3) ih(2)] s(4) by simp
  moreover have "length h \<le> length h2" using s(1) ih(1) by simp
  moreover have "\<forall>i < length h. h2 ! i = h ! i" using s(1,2) ih(2) by simp
  ultimately show ?case unfolding ys h' using ih(3) g1 by simp
qed

text \<open>
  Claim C9. Running \<open>split_into_assertions\<close> to its end leaves the graph it was given, and
  every other graph that existed before, as it was: the triples go into graphs created by
  the call.
\<close>

theorem split_reads_only:
  assumes "g < length h" and "split_into_assertions h g all_classes = (ys, h')"
  shows "triples (h' ! g) = triples (h ! g) \<and> h' ! g = h ! g \<and> take (length h) h' = h"
proof -
  from for_classes_store [OF assms(2) [unfolded split_into_assertions_def] assms(1)]
  have len: "length h \<le> length h'" and old: "\<forall>i < length h. h' ! i = h ! i" by simp_all
  from old assms(1) have "h' ! g = h ! g" by simp
  moreover from len old have "take (length h) h' = h"
    by (auto simp: list_eq_iff_nth_eq)
  ultimately show ?thesis by simp
qed

lemma Union_content:
  "(\<Union>y \<in> set ys. set (triples (h ! snd y))) = \<Union> (snd ` set (map (content h) ys))"
  by (auto simp: content_def)

lemma curie_split_unique:
  assumes "clss = prefix @ '':'' @ local" and "CHR '':'' \<notin> set prefix"
  shows "takeWhile (\<lambda>c. c \<noteq> CHR '':'') clss = prefix"
    and "tl (dropWhile (\<lambda>c. c \<noteq> CHR '':'') clss) = local"
    and "CHR '':'' \<in> set clss"
proof -
  have p: "\<And>x. x \<in> set prefix \<Longrightarrow> x \<noteq> CHR '':''" using assms(2) by auto
  show "takeWhile (\<lambda>c. c \<noteq> CHR '':'') clss = prefix"
    unfolding assms(1) by (simp add: takeWhile_append2 p)
  show "tl (dropWhile (\<lambda>c. c \<noteq> CHR '':'') clss) = local"
    unfolding assms(1) by (simp add: dropWhile_append2 p)
  show "CHR '':'' \<in> set clss" unfolding assms(1) by simp
qed

lemma curie_split_exists:
  assumes "CHR '':'' \<in> set clss"
  shows "clss = takeWhile (\<lambda>c. c \<noteq> CHR '':'') clss @ '':'' @
                tl (dropWhile (\<lambda>c. c \<noteq> CHR '':'') clss) \<and>
         CHR '':'' \<notin> set (takeWhile (\<lambda>c. c \<noteq> CHR '':'') clss)"
proof -
  let ?P = "\<lambda>c. c \<noteq> CHR '':''"
  from assms have ne: "dropWhile ?P clss \<noteq> []" by (simp add: dropWhile_eq_Nil_conv)
  then have "\<not> ?P (hd (dropWhile ?P clss))" by (rule hd_dropWhile)
  with ne have "dropWhile ?P clss = CHR '':'' # tl (dropWhile ?P clss)"
    by (cases "dropWhile ?P clss") simp_all
  then have "clss = takeWhile ?P clss @ CHR '':'' # tl (dropWhile ?P clss)"
    using takeWhile_dropWhile_id [of ?P clss] by simp
  moreover have "CHR '':'' \<notin> set (takeWhile ?P clss)"
    by (auto dest: set_takeWhileD)
  ultimately show ?thesis by simp
qed

text \<open>
  What \<open>parent_of\<close> computes: for a text \<open>prefix:local\<close>, cut at its first colon, with the
  prefix bound in the graph, the namespace followed by \<open>local\<close>; for any other text the IRI
  that the text spells.
\<close>

lemma parent_of_iff:
  "parent_of g clss = parent \<longleftrightarrow>
     (\<exists>prefix local ns. clss = prefix @ '':'' @ local \<and> CHR '':'' \<notin> set prefix \<and>
          map_of (namespaces g) prefix = Some ns \<and> parent = URIRef (ns @ local)) \<or>
     ((\<forall>prefix local. clss = prefix @ '':'' @ local \<and> CHR '':'' \<notin> set prefix \<longrightarrow>
          map_of (namespaces g) prefix = None) \<and> parent = URIRef clss)"
proof (cases "CHR '':'' \<in> set clss")
  case False
  then have "parent_of g clss = URIRef clss"
    by (simp add: parent_of_def expand_curie_def)
  moreover from False have "\<And>prefix local. clss \<noteq> prefix @ '':'' @ local" by auto
  ultimately show ?thesis by auto
next
  case True
  let ?p = "takeWhile (\<lambda>c. c \<noteq> CHR '':'') clss"
  let ?l = "tl (dropWhile (\<lambda>c. c \<noteq> CHR '':'') clss)"
  from curie_split_exists [OF True]
  have split: "clss = ?p @ '':'' @ ?l" and nocolon: "CHR '':'' \<notin> set ?p" by simp_all
  have uniq: "prefix = ?p \<and> local = ?l"
    if "clss = prefix @ '':'' @ local" and "CHR '':'' \<notin> set prefix" for prefix local
    using curie_split_unique(1,2) [OF that] by simp
  show ?thesis
  proof (cases "map_of (namespaces g) ?p")
    case None
    with True have "parent_of g clss = URIRef clss"
      by (simp add: parent_of_def expand_curie_def)
    moreover from None uniq
    have "\<forall>prefix local. clss = prefix @ '':'' @ local \<and> CHR '':'' \<notin> set prefix \<longrightarrow>
            map_of (namespaces g) prefix = None" by metis
    moreover from None uniq
    have "\<not> (\<exists>prefix local ns. clss = prefix @ '':'' @ local \<and> CHR '':'' \<notin> set prefix \<and>
            map_of (namespaces g) prefix = Some ns \<and> parent = URIRef (ns @ local))"
      by (metis option.distinct(1))
    ultimately show ?thesis by auto
  next
    case (Some ns)
    with True have eq: "parent_of g clss = URIRef (ns @ ?l)"
      by (simp add: parent_of_def expand_curie_def)
    have one: "(\<exists>prefix local ns'. clss = prefix @ '':'' @ local \<and> CHR '':'' \<notin> set prefix \<and>
            map_of (namespaces g) prefix = Some ns' \<and> parent = URIRef (ns' @ local)) \<longleftrightarrow>
          parent = URIRef (ns @ ?l)"
    proof
      assume "\<exists>prefix local ns'. clss = prefix @ '':'' @ local \<and> CHR '':'' \<notin> set prefix \<and>
            map_of (namespaces g) prefix = Some ns' \<and> parent = URIRef (ns' @ local)"
      then obtain prefix local ns' where c: "clss = prefix @ '':'' @ local"
        and n: "CHR '':'' \<notin> set prefix" and m: "map_of (namespaces g) prefix = Some ns'"
        and p: "parent = URIRef (ns' @ local)" by blast
      from uniq [OF c n] m Some p show "parent = URIRef (ns @ ?l)" by simp
    next
      assume "parent = URIRef (ns @ ?l)"
      with split nocolon Some
      show "\<exists>prefix local ns'. clss = prefix @ '':'' @ local \<and> CHR '':'' \<notin> set prefix \<and>
            map_of (namespaces g) prefix = Some ns' \<and> parent = URIRef (ns' @ local)"
        by blast
    qed
    have two: "\<not> (\<forall>prefix local. clss = prefix @ '':'' @ local \<and> CHR '':'' \<notin> set prefix \<longrightarrow>
            map_of (namespaces g) prefix = None)"
      using split nocolon Some by (metis option.distinct(1))
    from eq one two show ?thesis by auto
  qed
qed

text \<open>
  Claim C4. The triples of all assertion graphs yielded for the parent classes, taken
  together, are exactly the triples of \<open>g\<close> whose subject has a \<open>rdfs:subClassOf\<close> edge in \<open>g\<close> to
  a member of the parent set, where a member written \<open>prefix:local\<close> with the prefix bound in
  \<open>g\<close> stands for the namespace followed by \<open>local\<close> and any other member for the IRI it
  spells. When no member has a bound prefix, that is the set of triples whose subject has an
  edge to \<open>URIRef\<close> of a member. With no parent class nothing is yielded.
\<close>

theorem split_complete:
  assumes "g < length h" and "split_into_assertions h g all_classes = (ys, h')"
  shows "(\<Union>y \<in> set ys. set (triples (h' ! snd y))) =
           {(s, p, ob). (s, p, ob) \<in> set (triples (h ! g)) \<and>
              (\<exists>clss \<in> set all_classes. \<exists>parent.
                 ((\<exists>prefix local ns.
                     clss = prefix @ '':'' @ local \<and> CHR '':'' \<notin> set prefix \<and>
                     map_of (namespaces (h ! g)) prefix = Some ns \<and>
                     parent = URIRef (ns @ local)) \<or>
                  ((\<forall>prefix local.
                      clss = prefix @ '':'' @ local \<and> CHR '':'' \<notin> set prefix \<longrightarrow>
                      map_of (namespaces (h ! g)) prefix = None) \<and>
                   parent = URIRef clss)) \<and>
                 (s, RDFS_subClassOf, parent) \<in> set (triples (h ! g)))} \<and>
         ((\<forall>clss \<in> set all_classes. \<forall>prefix local.
             clss = prefix @ '':'' @ local \<and> CHR '':'' \<notin> set prefix \<longrightarrow>
             map_of (namespaces (h ! g)) prefix = None) \<longrightarrow>
          (\<Union>y \<in> set ys. set (triples (h' ! snd y))) =
            {(s, p, ob). (s, p, ob) \<in> set (triples (h ! g)) \<and>
               (\<exists>clss \<in> set all_classes.
                  (s, RDFS_subClassOf, URIRef clss) \<in> set (triples (h ! g)))}) \<and>
         (all_classes = [] \<longrightarrow> ys = [])"
proof (intro conjI)
  from for_classes_store [OF assms(2) [unfolded split_into_assertions_def] assms(1)]
  have "map (content h') ys =
           concat (map (\<lambda>clss. map (expected (h ! g))
                                  (subjects (h ! g) RDFS_subClassOf (parent_of (h ! g) clss)))
                     all_classes)"
    by simp
  then have u: "(\<Union>y \<in> set ys. set (triples (h' ! snd y))) =
           {(s, p, ob). (s, p, ob) \<in> set (triples (h ! g)) \<and>
              (\<exists>clss \<in> set all_classes. \<exists>parent. parent_of (h ! g) clss = parent \<and>
                 (s, RDFS_subClassOf, parent) \<in> set (triples (h ! g)))}"
    unfolding Union_content
    by (auto simp: expected_def set_subjects set_triples_of)
  show full: "(\<Union>y \<in> set ys. set (triples (h' ! snd y))) =
           {(s, p, ob). (s, p, ob) \<in> set (triples (h ! g)) \<and>
              (\<exists>clss \<in> set all_classes. \<exists>parent.
                 ((\<exists>prefix local ns.
                     clss = prefix @ '':'' @ local \<and> CHR '':'' \<notin> set prefix \<and>
                     map_of (namespaces (h ! g)) prefix = Some ns \<and>
                     parent = URIRef (ns @ local)) \<or>
                  ((\<forall>prefix local.
                      clss = prefix @ '':'' @ local \<and> CHR '':'' \<notin> set prefix \<longrightarrow>
                      map_of (namespaces (h ! g)) prefix = None) \<and>
                   parent = URIRef clss)) \<and>
                 (s, RDFS_subClassOf, parent) \<in> set (triples (h ! g)))}"
    unfolding u parent_of_iff ..
  show "(\<forall>clss \<in> set all_classes. \<forall>prefix local.
             clss = prefix @ '':'' @ local \<and> CHR '':'' \<notin> set prefix \<longrightarrow>
             map_of (namespaces (h ! g)) prefix = None) \<longrightarrow>
          (\<Union>y \<in> set ys. set (triples (h' ! snd y))) =
            {(s, p, ob). (s, p, ob) \<in> set (triples (h ! g)) \<and>
               (\<exists>clss \<in> set all_classes.
                  (s, RDFS_subClassOf, URIRef clss) \<in> set (triples (h ! g)))}"
  proof
    assume plain: "\<forall>clss \<in> set all_classes. \<forall>prefix local.
             clss = prefix @ '':'' @ local \<and> CHR '':'' \<notin> set prefix \<longrightarrow>
             map_of (namespaces (h ! g)) prefix = None"
    have "parent_of (h ! g) clss = URIRef clss" if "clss \<in> set all_classes" for clss
      using plain that unfolding parent_of_iff by blast
    then show "(\<Union>y \<in> set ys. set (triples (h' ! snd y))) =
            {(s, p, ob). (s, p, ob) \<in> set (triples (h ! g)) \<and>
               (\<exists>clss \<in> set all_classes.
                  (s, RDFS_subClassOf, URIRef clss) \<in> set (triples (h ! g)))}"
      unfolding u by auto
  qed
  from assms(2) show "all_classes = [] \<longrightarrow> ys = []"
    by (auto simp: split_into_assertions_def)
qed

lemma split_scenario_E:
  "split_into_assertions [scenario_E] 0 [''ex:Parent''] =
     ([(''A'', 1), (''B'', 2)],
      [scenario_E,
       \<lparr>triples =
          [(URIRef ''http://example.org/A'', RDFS_subClassOf, URIRef ''http://example.org/Parent''),
           (URIRef ''http://example.org/A'', URIRef rdfs_label, Literal ''a'' None None)],
        namespaces = []\<rparr>,
       \<lparr>triples =
          [(URIRef ''http://example.org/v#B'', RDFS_subClassOf, URIRef ''http://example.org/Parent'')],
        namespaces = []\<rparr>])"
  by code_simp

text \<open>
  Claim C9 on scenario E with the parent given as the CURIE \<open>ex:Parent\<close>.
\<close>

theorem split_reads_only_witness:
  "(0::nat) < length [scenario_E] \<and>
   split_into_assertions [scenario_E] 0 [''ex:Parent''] =
     ([(''A'', 1), (''B'', 2)],
      [scenario_E,
       \<lparr>triples =
          [(URIRef ''http://example.org/A'', RDFS_subClassOf, URIRef ''http://example.org/Parent''),
           (URIRef ''http://example.org/A'', URIRef rdfs_label, Literal ''a'' None None)],
        namespaces = []\<rparr>,
       \<lparr>triples =
          [(URIRef ''http://example.org/v#B'', RDFS_subClassOf, URIRef ''http://example.org/Parent'')],
        namespaces = []\<rparr>]) \<and>
   triples ([scenario_E,
       \<lparr>triples =
          [(URIRef ''http://example.org/A'', RDFS_subClassOf, URIRef ''http://example.org/Parent''),
           (URIRef ''http://example.org/A'', URIRef rdfs_label, Literal ''a'' None None)],
        namespaces = []\<rparr>,
       \<lparr>triples =
          [(URIRef ''http://example.org/v#B'', RDFS_subClassOf, URIRef ''http://example.org/Parent'')],
        namespaces = []\<rparr>] ! 0) = triples ([scenario_E] ! 0)"
proof -
  have len: "(0::nat) < length [scenario_E]" by simp
  from split_reads_only [OF len split_scenario_E] len split_scenario_E
  show ?thesis by blast
qed

lemma split_scenario_E_iri:
  "split_into_assertions [scenario_E] 0 [''http://example.org/Parent''] =
     ([(''A'', 1), (''B'', 2)],
      [scenario_E,
       \<lparr>triples =
          [(URIRef ''http://example.org/A'', RDFS_subClassOf, URIRef ''http://example.org/Parent''),
           (URIRef ''http://example.org/A'', URIRef rdfs_label, Literal ''a'' None None)],
        namespaces = []\<rparr>,
       \<lparr>triples =
          [(URIRef ''http://example.org/v#B'', RDFS_subClassOf, URIRef ''http://example.org/Parent'')],
        namespaces = []\<rparr>])"
  by code_simp

lemma resolved_member:
  assumes "clss \<in> set cs" and "clss = prefix @ '':'' @ local" and "CHR '':'' \<notin> set prefix"
    and "map_of N prefix = Some ns" and "(s, RDFS_subClassOf, URIRef (ns @ local)) \<in> T"
    and "(s, p, ob) \<in> T"
  shows "(s, p, ob) \<in>
          {(s, p, ob). (s, p, ob) \<in> T \<and>
              (\<exists>clss \<in> set cs. \<exists>parent.
                 ((\<exists>prefix local ns.
                     clss = prefix @ '':'' @ local \<and> CHR '':'' \<notin> set prefix \<and>
                     map_of N prefix = Some ns \<and> parent = URIRef (ns @ local)) \<or>
                  ((\<forall>prefix local.
                      clss = prefix @ '':'' @ local \<and> CHR '':'' \<notin> set prefix \<longrightarrow>
                      map_of N prefix = None) \<and>
                   parent = URIRef clss)) \<and>
                 (s, RDFS_subClassOf, parent) \<in> T)}"
  using assms by blast

lemma spelled_member:
  assumes "clss \<in> set cs" and "(s, RDFS_subClassOf, URIRef clss) \<in> T" and "(s, p, ob) \<in> T"
  shows "(s, p, ob) \<in>
          {(s, p, ob). (s, p, ob) \<in> T \<and>
              (\<exists>clss \<in> set cs. (s, RDFS_subClassOf, URIRef clss) \<in> T)}"
  using assms by blast

text \<open>
  Claim C4 on scenario E, with the parent given as the CURIE \<open>ex:Parent\<close> and as the IRI
  \<open>http://example.org/Parent\<close>: the label of \<open>A\<close> is in one of the two graphs yielded.
\<close>

theorem split_complete_witness:
  "(0::nat) < length [scenario_E] \<and>
   split_into_assertions [scenario_E] 0 [''ex:Parent''] =
     ([(''A'', 1), (''B'', 2)],
      [scenario_E,
       \<lparr>triples =
          [(URIRef ''http://example.org/A'', RDFS_subClassOf, URIRef ''http://example.org/Parent''),
           (URIRef ''http://example.org/A'', URIRef rdfs_label, Literal ''a'' None None)],
        namespaces = []\<rparr>,
       \<lparr>triples =
          [(URIRef ''http://example.org/v#B'', RDFS_subClassOf, URIRef ''http://example.org/Parent'')],
        namespaces = []\<rparr>]) \<and>
   ''ex:Parent'' = ''ex'' @ '':'' @ ''Parent'' \<and> CHR '':'' \<notin> set ''ex'' \<and>
   map_of (namespaces ([scenario_E] ! 0)) ''ex'' = Some ''http://example.org/'' \<and>
   (URIRef ''http://example.org/A'', RDFS_subClassOf, URIRef (''http://example.org/'' @ ''Parent''))
     \<in> set (triples ([scenario_E] ! 0)) \<and>
   (URIRef ''http://example.org/A'', URIRef rdfs_label, Literal ''a'' None None)
     \<in> set (triples ([scenario_E] ! 0)) \<and>
   split_into_assertions [scenario_E] 0 [''http://example.org/Parent''] =
     ([(''A'', 1), (''B'', 2)],
      [scenario_E,
       \<lparr>triples =
          [(URIRef ''http://example.org/A'', RDFS_subClassOf, URIRef ''http://example.org/Parent''),
           (URIRef ''http://example.org/A'', URIRef rdfs_label, Literal ''a'' None None)],
        namespaces = []\<rparr>,
       \<lparr>triples =
          [(URIRef ''http://example.org/v#B'', RDFS_subClassOf, URIRef ''http://example.org/Parent'')],
        namespaces = []\<rparr>]) \<and>
   takeWhile (\<lambda>c. c \<noteq> CHR '':'') ''http://example.org/Parent'' = ''http'' \<and>
   map_of (namespaces ([scenario_E] ! 0)) ''http'' = None \<and>
   (URIRef ''http://example.org/A'', RDFS_subClassOf, URIRef ''http://example.org/Parent'')
     \<in> set (triples ([scenario_E] ! 0)) \<and>
   (URIRef ''http://example.org/A'', URIRef rdfs_label, Literal ''a'' None None) \<in>
     (\<Union>y \<in> set [(''A'', 1), (''B'', 2)].
        set (triples ([scenario_E,
       \<lparr>triples =
          [(URIRef ''http://example.org/A'', RDFS_subClassOf, URIRef ''http://example.org/Parent''),
           (URIRef ''http://example.org/A'', URIRef rdfs_label, Literal ''a'' None None)],
        namespaces = []\<rparr>,
       \<lparr>triples =
          [(URIRef ''http://example.org/v#B'', RDFS_subClassOf, URIRef ''http://example.org/Parent'')],
        namespaces = []\<rparr>] ! snd y)))"
proof -
  let ?A = "URIRef ''http://example.org/A''"
  let ?tr = "(?A, URIRef rdfs_label, Literal ''a'' None None)"
  have len: "(0::nat) < length [scenario_E]" by simp
  have member: "''ex:Parent'' \<in> set [''ex:Parent'']" by simp
  have curie: "''ex:Parent'' = ''ex'' @ '':'' @ ''Parent''" by simp
  have nocolon: "CHR '':'' \<notin> set ''ex''" by simp
  have bound: "map_of (namespaces ([scenario_E] ! 0)) ''ex'' = Some ''http://example.org/''"
    by (simp add: scenario_E_def)
  have edge: "(?A, RDFS_subClassOf, URIRef (''http://example.org/'' @ ''Parent''))
       \<in> set (triples ([scenario_E] ! 0))"
    by (simp add: scenario_E_def)
  have own: "?tr \<in> set (triples ([scenario_E] ! 0))"
    by (simp add: scenario_E_def)
  note rhs = resolved_member [OF member curie nocolon bound edge own]
  note eq = split_complete [OF len split_scenario_E, THEN conjunct1]
  have "?tr \<in>
     (\<Union>y \<in> set [(''A'', 1), (''B'', 2)].
        set (triples ([scenario_E,
       \<lparr>triples =
          [(URIRef ''http://example.org/A'', RDFS_subClassOf, URIRef ''http://example.org/Parent''),
           (URIRef ''http://example.org/A'', URIRef rdfs_label, Literal ''a'' None None)],
        namespaces = []\<rparr>,
       \<lparr>triples =
          [(URIRef ''http://example.org/v#B'', RDFS_subClassOf, URIRef ''http://example.org/Parent'')],
        namespaces = []\<rparr>] ! snd y)))"
    unfolding eq by (rule rhs)
  have member2: "''http://example.org/Parent'' \<in> set [''http://example.org/Parent'']" by simp
  have cut: "takeWhile (\<lambda>c. c \<noteq> CHR '':'') ''http://example.org/Parent'' = ''http''" by simp
  have unbound: "map_of (namespaces ([scenario_E] ! 0)) ''http'' = None"
    by (simp add: scenario_E_def)
  have edge2: "(?A, RDFS_subClassOf, URIRef ''http://example.org/Parent'')
       \<in> set (triples ([scenario_E] ! 0))"
    by (simp add: scenario_E_def)
  have spelled: "\<forall>clss \<in> set [''http://example.org/Parent'']. \<forall>prefix local.
      clss = prefix @ '':'' @ local \<and> CHR '':'' \<notin> set prefix \<longrightarrow>
      map_of (namespaces ([scenario_E] ! 0)) prefix = None"
  proof (intro ballI allI impI)
    fix clss prefix local
    assume "clss \<in> set [''http://example.org/Parent'']"
      and c: "clss = prefix @ '':'' @ local \<and> CHR '':'' \<notin> set prefix"
    then have "clss = ''http://example.org/Parent''" by simp
    with c curie_split_unique(1) [of clss prefix local] cut have "prefix = ''http''" by simp
    with unbound show "map_of (namespaces ([scenario_E] ! 0)) prefix = None" by simp
  qed
  note eq2 = split_complete [OF len split_scenario_E_iri, THEN conjunct2, THEN conjunct1,
      THEN mp, OF spelled]
  have "?tr \<in>
     (\<Union>y \<in> set [(''A'', 1), (''B'', 2)].
        set (triples ([scenario_E,
       \<lparr>triples =
          [(URIRef ''http://example.org/A'', RDFS_subClassOf, URIRef ''http://example.org/Parent''),
           (URIRef ''http://example.org/A'', URIRef rdfs_label, Literal ''a'' None None)],
        namespaces = []\<rparr>,
       \<lparr>triples =
          [(URIRef ''http://example.org/v#B'', RDFS_subClassOf, URIRef ''http://example.org/Parent'')],
        namespaces = []\<rparr>] ! snd y)))"
    unfolding eq2 by (rule spelled_member [OF member2 edge2 own])
  then show ?thesis
    by (intro conjI)
       (rule len split_scenario_E split_scenario_E_iri curie nocolon bound edge own cut unbound
          edge2 | assumption)+
qed

end
